theory Spec2Isabelle
  imports Complex_Main "HOL-Library.Word"
begin

section \<open>JavaScript values\<close>

text \<open>
  The values that \<^verbatim>\<open>JSON.parse\<close> and the HTTP client hand to the hooks. Numbers are
  modelled as reals: the hooks store and compare them but never compute with them, and the
  only falsy number \<^verbatim>\<open>JSON.parse\<close> can produce is zero. An object is the association list
  of its own properties.
\<close>

datatype jsval =
    JUndefined
  | JNull
  | JBool bool
  | JNum real
  | JStr string
  | JArr "jsval list"
  | JObj "(string \<times> jsval) list"

text \<open>JavaScript truthiness, as used by \<^verbatim>\<open>||\<close> and \<^verbatim>\<open>!\<close>.\<close>

fun truthy :: "jsval \<Rightarrow> bool" where
  "truthy JUndefined = False"
| "truthy JNull = False"
| "truthy (JBool b) = b"
| "truthy (JNum n) = (n \<noteq> 0)"
| "truthy (JStr s) = (s \<noteq> [])"
| "truthy (JArr xs) = True"
| "truthy (JObj kv) = True"

text \<open>\<^verbatim>\<open>a || b\<close>\<close>

definition js_or :: "jsval \<Rightarrow> jsval \<Rightarrow> jsval" where
  "js_or a b = (if truthy a then a else b)"

text \<open>
  Property read \<^verbatim>\<open>v.k\<close> for the property names the hooks use (\<^verbatim>\<open>type\<close>, \<^verbatim>\<open>message\<close>,
  \<^verbatim>\<open>detail\<close>, \<^verbatim>\<open>processed\<close>, \<^verbatim>\<open>total\<close>, \<^verbatim>\<open>percentage\<close>, \<^verbatim>\<open>job_id\<close>): reading from
  \<^verbatim>\<open>null\<close> or \<^verbatim>\<open>undefined\<close> throws a TypeError (\<open>None\<close>); an object yields the property or
  \<^verbatim>\<open>undefined\<close>; every other value has none of these properties.
\<close>

fun get_prop :: "jsval \<Rightarrow> string \<Rightarrow> jsval option" where
  "get_prop JUndefined k = None"
| "get_prop JNull k = None"
| "get_prop (JObj kv) k = Some (case map_of kv k of Some v \<Rightarrow> v | None \<Rightarrow> JUndefined)"
| "get_prop v k = Some JUndefined"

text \<open>A property read on a value already known not to be \<^verbatim>\<open>null\<close> or \<^verbatim>\<open>undefined\<close>.\<close>

definition read_prop :: "jsval \<Rightarrow> string \<Rightarrow> jsval" where
  "read_prop v k = (case get_prop v k of Some x \<Rightarrow> x | None \<Rightarrow> JUndefined)"

section \<open>The status stream hook: \<^verbatim>\<open>useWebSocket\<close>\<close>

datatype status = Disconnected | Connecting | Connected | Complete | Error

text \<open>The objects appended to \<^verbatim>\<open>logs\<close>; the last field is the timestamp \<^verbatim>\<open>new Date()\<close>.\<close>

datatype log_entry =
    SystemLog string nat
  | MessageLog jsval nat
  | ProgressLog jsval jsval jsval jsval nat
  | ErrorLog jsval jsval nat
  | CompleteLog jsval jsval jsval nat

datatype ready_state = CONNECTING | OPEN | CLOSING | CLOSED

text \<open>
  A WebSocket object: the job id its handlers were created for, its \<^verbatim>\<open>readyState\<close>, and
  whether the browser has already delivered its close event.
\<close>

record socket =
  sock_job :: string
  readyState :: ready_state
  close_fired :: bool

text \<open>A pending \<^verbatim>\<open>setTimeout\<close>: its id, the time it is due, the job id of its callback.\<close>

record timer =
  timer_id :: nat
  due :: nat
  timer_job :: string

text \<open>
  The hook's React state (\<open>logs\<close> to \<open>error\<close>), its refs (\<open>wsRef\<close> to
  \<open>shouldReconnectRef\<close>), and the part of the browser the hook acts on: the sockets it has
  created (a socket is named by its index), the pending timers, the next timer id, the
  clock in milliseconds, and whether the effect of lines 22-155 is mounted.
\<close>

record hook =
  logs :: "log_entry list"
  progress :: jsval
  total_st :: jsval
  percentage :: jsval
  status :: status
  error :: jsval
  wsRef :: "nat option"
  reconnectTimeoutRef :: "nat option"
  statusRef :: status
  shouldReconnectRef :: bool
  sockets :: "socket list"
  timers :: "timer list"
  next_timer :: nat
  clock :: nat
  mounted :: bool

definition initial :: hook where
  "initial = \<lparr> logs = [], progress = JNum 0, total_st = JNum 0, percentage = JNum 0,
     status = Disconnected, error = JNull, wsRef = None, reconnectTimeoutRef = None,
     statusRef = Disconnected, shouldReconnectRef = True,
     sockets = [], timers = [], next_timer = 1, clock = 0, mounted = False \<rparr>"

subsection \<open>Browser operations the hook calls\<close>

text \<open>\<^verbatim>\<open>ws.close()\<close>: a connecting or open socket starts closing; otherwise nothing happens.\<close>

definition closing :: "ready_state \<Rightarrow> ready_state" where
  "closing r = (case r of CONNECTING \<Rightarrow> CLOSING | OPEN \<Rightarrow> CLOSING | CLOSING \<Rightarrow> CLOSING | CLOSED \<Rightarrow> CLOSED)"

definition ws_close :: "nat \<Rightarrow> hook \<Rightarrow> hook" where
  "ws_close i s =
     (if i < length (sockets s)
      then s\<lparr>sockets := (sockets s)[i := (sockets s ! i)\<lparr>readyState := closing (readyState (sockets s ! i))\<rparr>]\<rparr>
      else s)"

text \<open>\<^verbatim>\<open>reconnectTimeoutRef.current = setTimeout(callback, delay)\<close>\<close>

definition set_timeout :: "string \<Rightarrow> nat \<Rightarrow> hook \<Rightarrow> hook" where
  "set_timeout j delay s =
     s\<lparr>timers := timers s @ [\<lparr>timer_id = next_timer s, due = clock s + delay, timer_job = j\<rparr>],
       next_timer := Suc (next_timer s),
       reconnectTimeoutRef := Some (next_timer s)\<rparr>"

text \<open>\<^verbatim>\<open>clearTimeout(id)\<close>\<close>

definition clear_timeout :: "nat \<Rightarrow> hook \<Rightarrow> hook" where
  "clear_timeout t s = s\<lparr>timers := filter (\<lambda>x. timer_id x \<noteq> t) (timers s)\<rparr>"

subsection \<open>The handlers\<close>

text \<open>
  \<^verbatim>\<open>connect\<close> (lines 29-135) for job id \<open>j\<close>. \<open>thrown\<close> is \<open>Some m\<close> when the
  \<^verbatim>\<open>WebSocket\<close> constructor throws an error with message \<open>m\<close>.
\<close>

definition connect :: "jsval option \<Rightarrow> string \<Rightarrow> hook \<Rightarrow> hook" where
  "connect thrown j s =
     (if \<not> shouldReconnectRef s then s
      else
        let s1 = s\<lparr>status := Connecting, error := JNull\<rparr> in
        case thrown of
          Some m \<Rightarrow> s1\<lparr>status := Error, error := m\<rparr>
        | None \<Rightarrow>
            s1\<lparr>sockets := sockets s1 @ [\<lparr>sock_job = j, readyState = CONNECTING, close_fired = False\<rparr>],
               wsRef := Some (length (sockets s1))\<rparr>)"

text \<open>\<^verbatim>\<open>ws.onopen\<close> (lines 41-48) of socket \<open>i\<close>.\<close>

definition onopen :: "nat \<Rightarrow> hook \<Rightarrow> hook" where
  "onopen i s =
     (if \<not> shouldReconnectRef s then ws_close i s
      else s\<lparr>status := Connected,
             logs := logs s @ [SystemLog ''Connected to server'' (clock s)]\<rparr>)"

text \<open>
  Lines 83-85 and 103-105: close the socket in \<^verbatim>\<open>wsRef.current\<close> if there is one and it
  is open.
\<close>

definition close_current :: "hook \<Rightarrow> hook" where
  "close_current s =
     (case wsRef s of
        None \<Rightarrow> s
      | Some i \<Rightarrow>
          if i < length (sockets s) \<and> readyState (sockets s ! i) = OPEN then ws_close i s else s)"

text \<open>
  \<^verbatim>\<open>ws.onmessage\<close> (lines 50-110). \<open>parsed\<close> is the result of \<^verbatim>\<open>JSON.parse(event.data)\<close>,
  \<open>None\<close> when it throws; that exception and the TypeError of reading \<^verbatim>\<open>type\<close> from
  \<^verbatim>\<open>null\<close> are caught and leave the state as it is.
\<close>

definition onmessage :: "jsval option \<Rightarrow> hook \<Rightarrow> hook" where
  "onmessage parsed s =
     (case parsed of
        None \<Rightarrow> s
      | Some data \<Rightarrow>
         (case get_prop data ''type'' of
            None \<Rightarrow> s
          | Some t \<Rightarrow>
             if t = JStr ''log'' then
               s\<lparr>logs := logs s @ [MessageLog (read_prop data ''message'') (clock s)]\<rparr>
             else if t = JStr ''progress'' then
               s\<lparr>progress := js_or (read_prop data ''processed'') (JNum 0),
                 total_st := js_or (read_prop data ''total'') (JNum 0),
                 percentage := js_or (read_prop data ''percentage'') (JNum 0),
                 logs := logs s @ [ProgressLog (read_prop data ''message'') (read_prop data ''processed'')
                                     (read_prop data ''total'') (read_prop data ''percentage'') (clock s)]\<rparr>
             else if t = JStr ''error'' then
               close_current
                 (s\<lparr>shouldReconnectRef := False,
                    status := Error,
                    error := read_prop data ''message'',
                    logs := logs s @ [ErrorLog (read_prop data ''message'') (read_prop data ''detail'') (clock s)]\<rparr>)
             else if t = JStr ''complete'' then
               close_current
                 (s\<lparr>shouldReconnectRef := False,
                    status := Complete,
                    progress := js_or (read_prop data ''processed'') (JNum 0),
                    total_st := js_or (js_or (read_prop data ''total'') (read_prop data ''processed'')) (JNum 0),
                    percentage := JNum 100,
                    logs := logs s @ [CompleteLog (read_prop data ''message'') (read_prop data ''processed'')
                                        (js_or (read_prop data ''total'') (read_prop data ''processed'')) (clock s)]\<rparr>)
             else s))"

text \<open>\<^verbatim>\<open>ws.onerror\<close> (lines 112-116).\<close>

definition onerror :: "hook \<Rightarrow> hook" where
  "onerror s = s\<lparr>status := Error, error := JStr ''WebSocket connection error''\<rparr>"

text \<open>
  \<^verbatim>\<open>ws.onclose\<close> (lines 118-128) of a socket created by \<^verbatim>\<open>connect\<close> for job id \<open>j\<close>.
  The test reads the refs, not the state just set.
\<close>

definition onclose :: "string \<Rightarrow> hook \<Rightarrow> hook" where
  "onclose j s =
     (let s1 = s\<lparr>status := Disconnected\<rparr> in
      if shouldReconnectRef s1 \<and> statusRef s1 \<noteq> Complete \<and> statusRef s1 \<noteq> Error
      then set_timeout j 3000 s1
      else s1)"

text \<open>The timer callback (lines 122-126).\<close>

definition on_timeout :: "jsval option \<Rightarrow> string \<Rightarrow> hook \<Rightarrow> hook" where
  "on_timeout thrown j s = (if shouldReconnectRef s then connect thrown j s else s)"

text \<open>The effect of lines 18-20, run after a render in which \<open>status\<close> changed.\<close>

definition sync_status :: "hook \<Rightarrow> hook" where
  "sync_status s = s\<lparr>statusRef := status s\<rparr>"

text \<open>
  The body of the effect of lines 22-137; \<open>job\<close> is the hook's argument \<^verbatim>\<open>jobId\<close>, \<open>None\<close> is
  \<^verbatim>\<open>null\<close> or \<^verbatim>\<open>undefined\<close>, and the empty string is falsy too.
\<close>

definition effect :: "jsval option \<Rightarrow> string option \<Rightarrow> hook \<Rightarrow> hook" where
  "effect thrown job s =
     (case job of
        None \<Rightarrow> s
      | Some j \<Rightarrow>
          if j = [] then s
          else connect thrown j (s\<lparr>shouldReconnectRef := True, mounted := True\<rparr>))"

text \<open>The cleanup function the effect returns (lines 139-154).\<close>

definition cleanup :: "hook \<Rightarrow> hook" where
  "cleanup s =
     (let s1 = s\<lparr>shouldReconnectRef := False\<rparr>;
          s2 = (case reconnectTimeoutRef s1 of
                  None \<Rightarrow> s1
                | Some t \<Rightarrow> if t = 0 then s1 else (clear_timeout t s1)\<lparr>reconnectTimeoutRef := None\<rparr>);
          s3 = (case wsRef s2 of
                  None \<Rightarrow> s2
                | Some i \<Rightarrow> (ws_close i s2)\<lparr>wsRef := None\<rparr>)
      in s3\<lparr>logs := [], progress := JNum 0, total_st := JNum 0, percentage := JNum 0,
            status := Disconnected\<rparr>)"

text \<open>The fields a log entry may carry besides its message and timestamp.\<close>

fun entry_total :: "log_entry \<Rightarrow> jsval option" where
  "entry_total (ProgressLog m p t pc ts) = Some t"
| "entry_total (CompleteLog m p t ts) = Some t"
| "entry_total e = None"

text \<open>A stored percentage that is a number between 0 and 100.\<close>

fun in_0_100 :: "jsval \<Rightarrow> bool" where
  "in_0_100 (JNum p) = (0 \<le> p \<and> p \<le> 100)"
| "in_0_100 v = False"

subsection \<open>Events the browser and React deliver\<close>

text \<open>
  What can happen to the hook: React runs the effect for a job id or its cleanup, or runs
  the status effect after a render; the browser delivers an open, message, error or close
  event to socket \<open>i\<close>, or runs a due timer; time passes. An \<open>Effect\<close> or \<open>Timeout\<close>
  carries what the \<^verbatim>\<open>WebSocket\<close> constructor throws (\<open>None\<close>: nothing), a \<open>Message\<close> what
  \<^verbatim>\<open>JSON.parse\<close> returns (\<open>None\<close>: it throws).

  A state setter changes the state at once here. The handlers never read the state, only
  the refs, and \<open>statusRef\<close> follows \<open>status\<close> only at a \<open>Render\<close>, which may or may not
  come between two events.
\<close>

datatype event =
    Effect "string option" "jsval option"
  | Cleanup
  | Render
  | Open nat
  | Message nat "jsval option"
  | SocketError nat
  | Close nat
  | Timeout nat "jsval option"
  | Tick nat

definition set_ready :: "nat \<Rightarrow> ready_state \<Rightarrow> hook \<Rightarrow> hook" where
  "set_ready i r s = s\<lparr>sockets := (sockets s)[i := (sockets s ! i)\<lparr>readyState := r\<rparr>]\<rparr>"

definition set_closed :: "nat \<Rightarrow> hook \<Rightarrow> hook" where
  "set_closed i s =
     s\<lparr>sockets := (sockets s)[i := (sockets s ! i)\<lparr>readyState := CLOSED, close_fired := True\<rparr>]\<rparr>"

text \<open>
  The browser updates the socket or the timer queue and calls the handler. An error event
  is always followed by the close event of the same socket, so it leaves the socket closed
  with its close event outstanding.
\<close>

fun step :: "event \<Rightarrow> hook \<Rightarrow> hook" where
  "step (Effect job thrown) s = effect thrown job s"
| "step Cleanup s = (cleanup s)\<lparr>mounted := False\<rparr>"
| "step Render s = sync_status s"
| "step (Open i) s = onopen i (set_ready i OPEN s)"
| "step (Message i parsed) s = onmessage parsed s"
| "step (SocketError i) s = onerror (set_ready i CLOSED s)"
| "step (Close i) s = onclose (sock_job (sockets s ! i)) (set_closed i s)"
| "step (Timeout t thrown) s =
     (case find (\<lambda>x. timer_id x = t) (timers s) of
        None \<Rightarrow> s
      | Some tm \<Rightarrow> on_timeout thrown (timer_job tm) (clear_timeout t s))"
| "step (Tick d) s = s\<lparr>clock := clock s + d\<rparr>"

text \<open>
  When the browser or React can deliver an event: the effect runs when it is not mounted
  and its cleanup when it is; a socket opens only while connecting, receives messages only
  while open, and gets its close event once; a timer runs only when pending and due.
\<close>

fun enabled :: "event \<Rightarrow> hook \<Rightarrow> bool" where
  "enabled (Effect job thrown) s = (\<not> mounted s)"
| "enabled Cleanup s = mounted s"
| "enabled Render s = True"
| "enabled (Open i) s = (i < length (sockets s) \<and> readyState (sockets s ! i) = CONNECTING)"
| "enabled (Message i parsed) s = (i < length (sockets s) \<and> readyState (sockets s ! i) = OPEN)"
| "enabled (SocketError i) s = (i < length (sockets s) \<and> readyState (sockets s ! i) \<noteq> CLOSED)"
| "enabled (Close i) s = (i < length (sockets s) \<and> \<not> close_fired (sockets s ! i))"
| "enabled (Timeout t thrown) s =
     (case find (\<lambda>x. timer_id x = t) (timers s) of
        None \<Rightarrow> False
      | Some tm \<Rightarrow> due tm \<le> clock s)"
| "enabled (Tick d) s = True"

text \<open>Running a sequence of events; \<open>None\<close> when one of them cannot happen.\<close>

fun run :: "event list \<Rightarrow> hook \<Rightarrow> hook option" where
  "run [] s = Some s"
| "run (e # es) s = (if enabled e s then run es (step e s) else None)"

subsection \<open>Notions used to state properties of runs\<close>

text \<open>Every pending timer has an id that \<^verbatim>\<open>setTimeout\<close> has already handed out.\<close>

definition timers_fresh :: "hook \<Rightarrow> bool" where
  "timers_fresh s = list_all (\<lambda>tm. timer_id tm < next_timer s) (timers s)"

text \<open>
  The stream has not been stopped and neither the status nor the last rendered status is
  terminal.
\<close>

definition going :: "hook \<Rightarrow> bool" where
  "going s = (shouldReconnectRef s \<and> status s \<noteq> Complete \<and> status s \<noteq> Error
      \<and> statusRef s \<noteq> Complete \<and> statusRef s \<noteq> Error)"

text \<open>
  Events that neither stop the stream nor end it: no effect run or cleanup, no Error or
  Complete message, no socket error, no failing \<^verbatim>\<open>WebSocket\<close> constructor.
\<close>

fun benign :: "event \<Rightarrow> bool" where
  "benign (Effect job thrown) = False"
| "benign Cleanup = False"
| "benign Render = True"
| "benign (Open i) = True"
| "benign (Message i parsed) =
     (case parsed of
        None \<Rightarrow> True
      | Some d \<Rightarrow> get_prop d ''type'' \<noteq> Some (JStr ''error'') \<and> get_prop d ''type'' \<noteq> Some (JStr ''complete''))"
| "benign (SocketError i) = False"
| "benign (Close i) = True"
| "benign (Timeout t thrown) = (thrown = None)"
| "benign (Tick d) = True"

text \<open>
  \<open>n\<close> dropped connections in a row, starting with socket \<open>i\<close> and timer id \<open>t\<close>: the socket
  closes, the timer runs after the delay, the next socket opens, with a render after each.
\<close>

fun drops :: "nat \<Rightarrow> nat \<Rightarrow> nat \<Rightarrow> event list" where
  "drops 0 i t = []"
| "drops (Suc n) i t =
     [Close i, Render, Tick 3000, Timeout t None, Render, Open (Suc i), Render] @ drops n (Suc i) (Suc t)"

text \<open>
  A connected stream that has not been stopped, whose newest socket \<open>i\<close> is open, and whose
  next timer id is \<open>t\<close>.
\<close>

definition live :: "nat \<Rightarrow> nat \<Rightarrow> hook \<Rightarrow> bool" where
  "live i t s =
     (length (sockets s) = Suc i \<and> readyState (sockets s ! i) = OPEN \<and> \<not> close_fired (sockets s ! i)
      \<and> status s = Connected \<and> statusRef s = Connected \<and> shouldReconnectRef s
      \<and> timers_fresh s \<and> next_timer s = t)"

text \<open>
  A stream that a Complete or Error message has ended: reconnection is switched off and
  every socket is closing or closed.
\<close>

definition ended :: "hook \<Rightarrow> bool" where
  "ended s = (\<not> shouldReconnectRef s
     \<and> list_all (\<lambda>k. readyState k = CLOSING \<or> readyState k = CLOSED) (sockets s))"

text \<open>Events that start or stop a stream.\<close>

fun restarts :: "event \<Rightarrow> bool" where
  "restarts (Effect job thrown) = True"
| "restarts Cleanup = True"
| "restarts e = False"

section \<open>Text encoding: \<^verbatim>\<open>file.text()\<close> and \<^verbatim>\<open>TextEncoder\<close>\<close>

text \<open>
  The browser's UTF-8 decoder and encoder, as the Encoding Standard defines them. A byte
  is a natural number here; the masks and shifts of the standard are written with
  \<open>mod\<close>, \<open>div\<close> and multiplication. A text is the list of its scalar values (the
  JavaScript string in between is their UTF-16 form, which loses nothing).
\<close>

record utf8_state =
  code_point :: nat
  bytes_seen :: nat
  bytes_needed :: nat
  lower_boundary :: nat
  upper_boundary :: nat

definition utf8_start :: utf8_state where
  "utf8_start = \<lparr>code_point = 0, bytes_seen = 0, bytes_needed = 0,
                  lower_boundary = 0x80, upper_boundary = 0xBF\<rparr>"

text \<open>The decoder on a byte when no bytes are needed: what it emits and its next state.\<close>

definition lead_byte :: "nat \<Rightarrow> nat list \<times> utf8_state" where
  "lead_byte b =
     (if b \<le> 0x7F then ([b], utf8_start)
      else if 0xC2 \<le> b \<and> b \<le> 0xDF then
        ([], utf8_start\<lparr>bytes_needed := 1, code_point := b mod 0x20\<rparr>)
      else if 0xE0 \<le> b \<and> b \<le> 0xEF then
        ([], utf8_start\<lparr>lower_boundary := (if b = 0xE0 then 0xA0 else 0x80),
                         upper_boundary := (if b = 0xED then 0x9F else 0xBF),
                         bytes_needed := 2, code_point := b mod 0x10\<rparr>)
      else if 0xF0 \<le> b \<and> b \<le> 0xF4 then
        ([], utf8_start\<lparr>lower_boundary := (if b = 0xF0 then 0x90 else 0x80),
                         upper_boundary := (if b = 0xF4 then 0x8F else 0xBF),
                         bytes_needed := 3, code_point := b mod 8\<rparr>)
      else ([0xFFFD], utf8_start))"

text \<open>
  The decoder on any byte. A byte outside the boundaries is an error (U+FFFD is emitted)
  and is then processed again from the start state.
\<close>

definition utf8_handler :: "utf8_state \<Rightarrow> nat \<Rightarrow> nat list \<times> utf8_state" where
  "utf8_handler st b =
     (if bytes_needed st = 0 then lead_byte b
      else if b < lower_boundary st \<or> upper_boundary st < b then
        (0xFFFD # fst (lead_byte b), snd (lead_byte b))
      else
        let cp = code_point st * 0x40 + b mod 0x40 in
        if Suc (bytes_seen st) \<noteq> bytes_needed st then
          ([], st\<lparr>lower_boundary := 0x80, upper_boundary := 0xBF, code_point := cp,
                   bytes_seen := Suc (bytes_seen st)\<rparr>)
        else ([cp], utf8_start))"

fun utf8_run :: "utf8_state \<Rightarrow> nat list \<Rightarrow> nat list" where
  "utf8_run st [] = (if bytes_needed st \<noteq> 0 then [0xFFFD] else [])"
| "utf8_run st (b # bs) = fst (utf8_handler st b) @ utf8_run (snd (utf8_handler st b)) bs"

text \<open>\<^verbatim>\<open>file.text()\<close>: UTF-8 decode, which first drops a leading byte order mark.\<close>

definition utf8_decode :: "nat list \<Rightarrow> nat list" where
  "utf8_decode bs =
     utf8_run utf8_start (if take 3 bs = [0xEF, 0xBB, 0xBF] then drop 3 bs else bs)"

definition utf8_encode_cp :: "nat \<Rightarrow> nat list" where
  "utf8_encode_cp cp =
     (if cp \<le> 0x7F then [cp]
      else if cp \<le> 0x7FF then [cp div 0x40 + 0xC0, 0x80 + cp mod 0x40]
      else if cp \<le> 0xFFFF then
        [cp div 0x1000 + 0xE0, 0x80 + (cp div 0x40) mod 0x40, 0x80 + cp mod 0x40]
      else
        [cp div 0x40000 + 0xF0, 0x80 + (cp div 0x1000) mod 0x40,
         0x80 + (cp div 0x40) mod 0x40, 0x80 + cp mod 0x40])"

text \<open>\<^verbatim>\<open>new TextEncoder().encode(text)\<close>\<close>

definition utf8_encode :: "nat list \<Rightarrow> nat list" where
  "utf8_encode cps = concat (map utf8_encode_cp cps)"

text \<open>A Unicode scalar value: a code point that is not a surrogate.\<close>

definition scalar :: "nat \<Rightarrow> bool" where
  "scalar cp = (cp \<le> 0x10FFFF \<and> \<not> (0xD800 \<le> cp \<and> cp \<le> 0xDFFF))"

section \<open>The upload hook: \<^verbatim>\<open>useProductUpload\<close>\<close>

type_synonym byte = "8 word"

record js_file =
  file_name :: string
  file_bytes :: "byte list"

text \<open>
  What the \<^verbatim>\<open>catch\<close> block reads from a thrown error: \<^verbatim>\<open>err.response?.data?.detail\<close>
  (\<^verbatim>\<open>undefined\<close> when any link is missing) and \<^verbatim>\<open>err.message\<close>.
\<close>

record js_error =
  err_detail :: jsval
  err_message :: jsval

record upload_state =
  uploading :: bool
  jobId :: jsval
  upload_error :: jsval

text \<open>
  What the hook calls and does not define: whether \<^verbatim>\<open>file.text()\<close> rejects, fflate's
  \<^verbatim>\<open>gzip\<close> (an error or the compressed bytes), the backend behind \<^verbatim>\<open>apiClient.post\<close>
  (given the form's file name and blob: \<^verbatim>\<open>response.data\<close> for a 2xx response, the error
  the client throws otherwise), and the message of the engine's TypeError.
\<close>

record upload_env =
  text_rejects :: "js_error option"
  gzip :: "byte list \<Rightarrow> js_error + byte list"
  post :: "string \<Rightarrow> byte list \<Rightarrow> js_error + jsval"
  type_error_message :: string

text \<open>The file reads and network calls an upload performs, in order.\<close>

datatype io = ReadFile string | Post string string "byte list"

text \<open>\<^verbatim>\<open>s.endsWith(suffix)\<close>\<close>

definition endsWith :: "string \<Rightarrow> string \<Rightarrow> bool" where
  "endsWith s suffix = (length suffix \<le> length s \<and> drop (length s - length suffix) s = suffix)"

text \<open>Lines 26-42: read the file as text, encode the text, compress the bytes.\<close>

definition compress_file :: "upload_env \<Rightarrow> js_file \<Rightarrow> js_error + byte list" where
  "compress_file env f =
     (case text_rejects env of
        Some e \<Rightarrow> Inl e
      | None \<Rightarrow>
          let fileText = utf8_decode (map unat (file_bytes f));
              fileData = map of_nat (utf8_encode fileText)
          in gzip env fileData)"

text \<open>The \<^verbatim>\<open>catch\<close> block (lines 61-66).\<close>

definition upload_failed :: "js_error \<Rightarrow> upload_state \<Rightarrow> io list \<Rightarrow> jsval \<times> upload_state \<times> io list" where
  "upload_failed e s ios =
     (JNull,
      s\<lparr>upload_error := js_or (js_or (err_detail e) (err_message e)) (JStr ''Upload failed''),
        uploading := False\<rparr>,
      ios)"

text \<open>
  \<^verbatim>\<open>uploadFile\<close> (lines 10-67): the value the promise resolves to, the hook's state when
  it does, and the I/O performed. \<open>picked\<close> is the argument \<^verbatim>\<open>file\<close>, \<open>None\<close> when it is
  \<^verbatim>\<open>null\<close> or \<^verbatim>\<open>undefined\<close>.
\<close>

definition uploadFile :: "upload_env \<Rightarrow> js_file option \<Rightarrow> upload_state \<Rightarrow> jsval \<times> upload_state \<times> io list" where
  "uploadFile env picked s =
     (case picked of
        None \<Rightarrow> (JNull, s\<lparr>upload_error := JStr ''No file selected''\<rparr>, [])
      | Some f \<Rightarrow>
          if \<not> endsWith (file_name f) ''.csv'' \<and> \<not> endsWith (file_name f) ''.CSV'' then
            (JNull, s\<lparr>upload_error := JStr ''File must be a CSV file''\<rparr>, [])
          else
            let s1 = s\<lparr>uploading := True, upload_error := JNull, jobId := JNull\<rparr> in
            case compress_file env f of
              Inl e \<Rightarrow> upload_failed e s1 [ReadFile (file_name f)]
            | Inr compressed \<Rightarrow>
               (let ios = [ReadFile (file_name f),
                           Post ''/api/upload'' (file_name f @ ''.gz'') compressed] in
                case post env (file_name f @ ''.gz'') compressed of
                  Inl e \<Rightarrow> upload_failed e s1 ios
                | Inr data \<Rightarrow>
                   (case get_prop data ''job_id'' of
                      None \<Rightarrow>
                        upload_failed \<lparr>err_detail = JUndefined,
                                       err_message = JStr (type_error_message env)\<rparr> s1 ios
                    | Some newJobId \<Rightarrow>
                        (newJobId, s1\<lparr>jobId := newJobId, uploading := False\<rparr>, ios))))"

text \<open>ASCII lower-casing, to speak of a name's extension without regard to case.\<close>

definition lower :: "char \<Rightarrow> char" where
  "lower c = (if 65 \<le> (of_char c :: nat) \<and> (of_char c :: nat) \<le> 90
              then Char (digit0 c) (digit1 c) (digit2 c) (digit3 c) (digit4 c) True
                     (digit6 c) (digit7 c)
              else c)"

text \<open>
  A stand-in for a gzip codec that only stores: two magic bytes, then the data; and its
  inverse.
\<close>

definition store :: "byte list \<Rightarrow> js_error + byte list" where
  "store bs = Inr (0x1F # 0x8B # bs)"

definition unstore :: "byte list \<Rightarrow> byte list option" where
  "unstore bs = (if take 2 bs = [0x1F, 0x8B] then Some (drop 2 bs) else None)"

text \<open>Decompressing what the compression step produced, if it produced anything.\<close>

definition decompressed ::
  "(byte list \<Rightarrow> byte list option) \<Rightarrow> js_error + byte list \<Rightarrow> byte list option" where
  "decompressed gunzip r = (case r of Inl e \<Rightarrow> None | Inr c \<Rightarrow> gunzip c)"

text \<open>
  An environment for examples: the file is readable, compression stores, and the backend
  answers every upload with a 2xx response whose body is \<open>body\<close>.
\<close>

definition test_env :: "jsval \<Rightarrow> upload_env" where
  "test_env body =
     \<lparr>text_rejects = None, gzip = store, post = (\<lambda>fname blob. Inr body),
      type_error_message = ''Cannot read properties of null''\<rparr>"

definition idle :: upload_state where
  "idle = \<lparr>uploading = False, jobId = JNull, upload_error = JNull\<rparr>"

section \<open>Facts about the handlers and about runs\<close>

lemmas handler_defs = effect_def connect_def onopen_def onmessage_def onerror_def onclose_def
  on_timeout_def sync_status_def cleanup_def close_current_def ws_close_def set_timeout_def
  clear_timeout_def set_ready_def set_closed_def closing_def

lemma run_append: "run (xs @ ys) s = (case run xs s of None \<Rightarrow> None | Some s' \<Rightarrow> run ys s')"
  by (induction xs arbitrary: s) auto

lemma step_timers_fresh: "timers_fresh s \<Longrightarrow> timers_fresh (step e s)"
  by (cases e)
     (auto simp: timers_fresh_def handler_defs Let_def list_all_iff
           split: option.splits if_splits elim: less_SucI)

lemma run_timers_fresh: "run es s = Some s' \<Longrightarrow> timers_fresh s \<Longrightarrow> timers_fresh s'"
  by (induction es arbitrary: s) (auto split: if_splits intro: step_timers_fresh)

lemma find_fresh:
  "list_all (\<lambda>tm. timer_id tm < t) ts \<Longrightarrow> timer_id new = t \<Longrightarrow>
   find (\<lambda>x. timer_id x = t) (ts @ [new]) = Some new"
  by (induction ts) auto

lemma filter_fresh:
  "list_all (\<lambda>tm. timer_id tm < t) ts \<Longrightarrow> filter (\<lambda>x. timer_id x \<noteq> t) ts = ts"
  by (induction ts) auto

lemma step_going: "going s \<Longrightarrow> benign e \<Longrightarrow> going (step e s)"
  by (cases e)
     (auto simp: going_def handler_defs Let_def split: option.splits if_splits)

lemma run_going: "run es s = Some s' \<Longrightarrow> list_all benign es \<Longrightarrow> going s \<Longrightarrow> going s'"
  by (induction es arbitrary: s) (auto split: if_splits intro: step_going)

lemma effect_going:
  "j \<noteq> [] \<Longrightarrow> statusRef s \<noteq> Complete \<Longrightarrow> statusRef s \<noteq> Error \<Longrightarrow>
   going (step (Effect (Some j) None) s)"
  by (simp add: going_def handler_defs)

lemma close_schedules:
  assumes "timers_fresh s" "shouldReconnectRef s" "statusRef s \<noteq> Complete" "statusRef s \<noteq> Error"
  shows "status (step (Close i) s) = Disconnected"
    and "timers (step (Close i) s)
           = timers s @ [\<lparr>timer_id = next_timer s, due = clock s + 3000, timer_job = sock_job (sockets s ! i)\<rparr>]"
    and "d < 3000 \<Longrightarrow> \<not> enabled (Timeout (next_timer s) thrown) (step (Tick d) (step (Close i) s))"
    and "enabled (Timeout (next_timer s) None) (step (Tick 3000) (step (Close i) s))"
    and "status (step (Timeout (next_timer s) None) (step (Tick 3000) (step (Close i) s))) = Connecting"
    and "timers (step (Timeout (next_timer s) None) (step (Tick 3000) (step (Close i) s))) = timers s"
    and "length (sockets (step (Timeout (next_timer s) None) (step (Tick 3000) (step (Close i) s))))
           = Suc (length (sockets s))"
  using assms
  by (simp_all add: timers_fresh_def handler_defs find_fresh filter_fresh)

lemma cycle_live:
  assumes "live i t s"
  shows "\<exists>s'. run [Close i, Render, Tick 3000, Timeout t None, Render, Open (Suc i), Render] s = Some s'
              \<and> live (Suc i) (Suc t) s'"
proof -
  from assms have socks: "length (sockets s) = Suc i" "readyState (sockets s ! i) = OPEN"
      "\<not> close_fired (sockets s ! i)"
    and st: "status s = Connected" "statusRef s = Connected" "shouldReconnectRef s"
    and fresh: "list_all (\<lambda>tm. timer_id tm < t) (timers s)"
    and nt: "next_timer s = t"
    by (auto simp: live_def timers_fresh_def)
  from fresh have fresh': "list_all (\<lambda>tm. timer_id tm < Suc t) (timers s)"
    by (induction "timers s") (auto simp: list_all_iff)
  show ?thesis
    using socks st fresh fresh' nt
    by (simp add: live_def timers_fresh_def handler_defs nth_append find_fresh filter_fresh)
qed

lemma drops_live:
  "live i t s \<Longrightarrow> \<exists>s'. run (drops n i t) s = Some s' \<and> live (i + n) (t + n) s'"
proof (induction n arbitrary: i t s)
  case 0
  then show ?case by simp
next
  case (Suc n)
  from cycle_live [OF Suc.prems] obtain s1 where
    r1: "run [Close i, Render, Tick 3000, Timeout t None, Render, Open (Suc i), Render] s = Some s1"
    and l1: "live (Suc i) (Suc t) s1" by blast
  from Suc.IH [OF l1] obtain s2 where
    r2: "run (drops n (Suc i) (Suc t)) s1 = Some s2" and l2: "live (Suc i + n) (Suc t + n) s2"
    by blast
  have "run (drops (Suc n) i t) s = Some s2"
    using r1 r2 by (simp only: drops.simps run_append) simp
  then show ?case using l2 by simp
qed

lemma start_live:
  assumes "j \<noteq> []" "\<not> mounted s" "timers_fresh s"
  shows "\<exists>s'. run [Effect (Some j) None, Render, Open (length (sockets s)), Render] s = Some s'
              \<and> live (length (sockets s)) (next_timer s) s'"
proof -
  from assms(3) have fresh: "list_all (\<lambda>tm. timer_id tm < next_timer s) (timers s)"
    by (simp add: timers_fresh_def)
  show ?thesis
    using assms(1,2) fresh
    by (simp add: live_def timers_fresh_def handler_defs nth_append)
qed

lemma list_all_update:
  "list_all P xs \<Longrightarrow> P x \<Longrightarrow> list_all P (xs[i := x])"
  by (induction xs arbitrary: i) (auto split: nat.splits)

text \<open>
  What does hold after a Complete or Error message: once the stream has ended, no event
  other than a new effect run or the cleanup appends a log entry, changes the progress
  snapshot, creates a socket or schedules a timer.
\<close>

lemma terminal_message_ends:
  assumes "get_prop d ''type'' = Some (JStr ''complete'') \<or> get_prop d ''type'' = Some (JStr ''error'')"
      and "enabled (Message i (Some d)) s" and "wsRef s = Some i"
      and "list_all (\<lambda>k. readyState k = CLOSING \<or> readyState k = CLOSED)
             ((sockets s)[i := (sockets s ! i)\<lparr>readyState := CLOSING\<rparr>])"
  shows "ended (step (Message i (Some d)) s)"
  using assms by (auto simp: ended_def handler_defs)

lemma ended_step:
  assumes "ended s" "enabled e s" "\<not> restarts e"
  shows "ended (step e s) \<and> logs (step e s) = logs s
         \<and> length (sockets (step e s)) = length (sockets s)
         \<and> set (timers (step e s)) \<subseteq> set (timers s)
         \<and> progress (step e s) = progress s \<and> total_st (step e s) = total_st s
         \<and> percentage (step e s) = percentage s"
proof (cases e)
  case (Open i)
  with assms show ?thesis by (auto simp: ended_def list_all_length)
next
  case (Message i p)
  with assms show ?thesis by (auto simp: ended_def list_all_length)
next
  case (SocketError i)
  with assms show ?thesis
    by (auto simp: ended_def handler_defs intro!: list_all_update)
next
  case (Close i)
  with assms show ?thesis
    by (auto simp: ended_def handler_defs intro!: list_all_update)
next
  case (Timeout t thr)
  with assms show ?thesis
    by (auto simp: ended_def handler_defs split: option.splits)
qed (use assms in \<open>auto simp: ended_def handler_defs\<close>)

lemma ended_run:
  "run es s = Some s' \<Longrightarrow> ended s \<Longrightarrow> list_all (\<lambda>e. \<not> restarts e) es \<Longrightarrow>
   ended s' \<and> logs s' = logs s \<and> length (sockets s') = length (sockets s)
   \<and> set (timers s') \<subseteq> set (timers s)
   \<and> progress s' = progress s \<and> total_st s' = total_st s \<and> percentage s' = percentage s"
proof (induction es arbitrary: s)
  case Nil
  then show ?case by simp
next
  case (Cons e es)
  from Cons.prems have en: "enabled e s" and r: "run es (step e s) = Some s'"
    and nr: "\<not> restarts e" and rest: "list_all (\<lambda>e. \<not> restarts e) es"
    by (auto split: if_splits)
  note st = ended_step [OF Cons.prems(2) en nr]
  from Cons.IH [OF r _ rest] st show ?case by auto
qed

text \<open>The parts of the cleanup that do hold.\<close>

lemma cleanup_idempotent: "cleanup (cleanup s) = cleanup s"
  by (simp add: cleanup_def clear_timeout_def ws_close_def Let_def split: option.splits)

lemma cleanup_resets:
  "shouldReconnectRef (cleanup s) = False \<and> wsRef (cleanup s) = None
   \<and> logs (cleanup s) = [] \<and> progress (cleanup s) = JNum 0 \<and> total_st (cleanup s) = JNum 0
   \<and> percentage (cleanup s) = JNum 0 \<and> status (cleanup s) = Disconnected
   \<and> error (cleanup s) = error s"
  by (simp add: cleanup_def clear_timeout_def ws_close_def Let_def split: option.splits)

section \<open>Facts about the encoding and the upload\<close>

lemmas utf8_defs = utf8_handler_def lead_byte_def utf8_start_def

lemma add_multiple_mod: "a < n \<Longrightarrow> (a + k * n) mod n = (a::nat)"
  by simp

lemma run_two:
  assumes "2 \<le> a" "a < 32" "b < 64"
  shows "utf8_run utf8_start ([a + 192, 128 + b] @ rest) = (a * 64 + b) # utf8_run utf8_start rest"
proof -
  have m: "(a + 192) mod 32 = a" "(128 + b) mod 64 = b"
    using add_multiple_mod [of a 32 6] add_multiple_mod [of b 64 2] assms
    by (simp_all add: add.commute)
  show ?thesis using assms m by (simp add: utf8_defs)
qed

lemma run_three:
  assumes "a < 16" "b < 64" "c < 64" "a = 0 \<longrightarrow> 32 \<le> b" "a = 13 \<longrightarrow> b < 32"
  shows "utf8_run utf8_start ([a + 224, 128 + b, 128 + c] @ rest)
           = ((a * 64 + b) * 64 + c) # utf8_run utf8_start rest"
proof -
  have m: "(a + 224) mod 16 = a" "(128 + b) mod 64 = b" "(128 + c) mod 64 = c"
    using add_multiple_mod [of a 16 14] add_multiple_mod [of b 64 2] add_multiple_mod [of c 64 2]
      assms
    by (simp_all add: add.commute)
  show ?thesis using assms m by (auto simp: utf8_defs)
qed

lemma run_four:
  assumes "a < 5" "b < 64" "c < 64" "d < 64" "a = 0 \<longrightarrow> 16 \<le> b" "a = 4 \<longrightarrow> b < 16"
  shows "utf8_run utf8_start ([a + 240, 128 + b, 128 + c, 128 + d] @ rest)
           = (((a * 64 + b) * 64 + c) * 64 + d) # utf8_run utf8_start rest"
proof -
  have m: "(a + 240) mod 8 = a" "(128 + b) mod 64 = b" "(128 + c) mod 64 = c" "(128 + d) mod 64 = d"
    using add_multiple_mod [of a 8 30] add_multiple_mod [of b 64 2] add_multiple_mod [of c 64 2]
      add_multiple_mod [of d 64 2] assms
    by (simp_all add: add.commute)
  show ?thesis using assms m by (auto simp: utf8_defs)
qed

lemma encode_cp_bytes: "scalar cp \<Longrightarrow> list_all (\<lambda>b. b < 256) (utf8_encode_cp cp)"
proof -
  assume "scalar cp"
  then have le: "cp \<le> 1114111" by (simp add: scalar_def)
  have m: "cp mod 64 < 64" "cp div 64 mod 64 < 64" "cp div 4096 mod 64 < 64" by simp_all
  have "cp \<le> 2047 \<Longrightarrow> cp div 64 < 32" "cp \<le> 65535 \<Longrightarrow> cp div 4096 < 16" "cp div 262144 < 5"
    using le by (simp_all add: less_mult_imp_div_less)
  then show ?thesis using m by (auto simp: utf8_encode_cp_def)
qed

lemma run_encode_cp:
  assumes "scalar cp"
  shows "utf8_run utf8_start (utf8_encode_cp cp @ rest) = cp # utf8_run utf8_start rest"
proof -
  define x where "x = cp div 64"
  define y where "y = x div 64"
  have cx: "cp = x * 64 + cp mod 64" and xy: "x = y * 64 + x mod 64"
    by (simp_all add: x_def y_def)
  have yz: "y = y div 64 * 64 + y mod 64" by simp
  have d12: "cp div 4096 = y" using div_mult2_eq [of cp 64 64] by (simp add: x_def y_def)
  have d18: "cp div 262144 = y div 64" using div_mult2_eq [of cp 4096 64] d12 by simp
  have lt: "cp mod 64 < 64" "x mod 64 < 64" "y mod 64 < 64" by simp_all
  consider "cp \<le> 0x7F" | "0x7F < cp" "cp \<le> 0x7FF" | "0x7FF < cp" "cp \<le> 0xFFFF"
    | "0xFFFF < cp" by linarith
  then show ?thesis
  proof cases
    case 1
    then show ?thesis by (simp add: utf8_encode_cp_def utf8_defs)
  next
    case 2
    have b: "2 \<le> x" "x < 32" using 2 cx lt by linarith+
    have "utf8_encode_cp cp = [x + 192, 128 + cp mod 64]"
      using 2 by (simp add: utf8_encode_cp_def x_def)
    then show ?thesis using run_two [OF b lt(1), of rest] cx by simp
  next
    case 3
    have b: "y < 16" "y = 0 \<longrightarrow> 32 \<le> x mod 64" "y = 13 \<longrightarrow> x mod 64 < 32"
      using 3 assms cx xy lt unfolding scalar_def by linarith+
    have "utf8_encode_cp cp = [y + 224, 128 + x mod 64, 128 + cp mod 64]"
      using 3 d12 by (simp add: utf8_encode_cp_def x_def)
    then show ?thesis using run_three [OF b(1) lt(2) lt(1) b(2) b(3), of rest] cx xy by simp
  next
    case 4
    have b: "y div 64 < 5" "y div 64 = 0 \<longrightarrow> 16 \<le> y mod 64" "y div 64 = 4 \<longrightarrow> y mod 64 < 16"
      using 4 assms cx xy yz lt unfolding scalar_def by linarith+
    have "utf8_encode_cp cp = [y div 64 + 240, 128 + y mod 64, 128 + x mod 64, 128 + cp mod 64]"
      using 4 d12 d18 by (simp add: utf8_encode_cp_def x_def)
    then show ?thesis
      using run_four [OF b(1) lt(3) lt(2) lt(1) b(2) b(3), of rest] cx xy yz by simp
  qed
qed

lemma bytes_of_nat_unat:
  "list_all (\<lambda>b. b < 256) xs \<Longrightarrow> map unat (map of_nat xs :: byte list) = xs"
  by (induction xs) (simp_all add: unat_of_nat)

lemma lower_suffix:
  assumes "endsWith n suffix"
  shows "endsWith (map lower n) (map lower suffix)"
proof -
  from assms have len: "length suffix \<le> length n"
    and d: "drop (length n - length suffix) n = suffix"
    by (simp_all add: endsWith_def)
  have "drop (length (map lower n) - length (map lower suffix)) (map lower n)
          = map lower (drop (length n - length suffix) n)"
    by (simp add: drop_map)
  with d len show ?thesis by (simp add: endsWith_def)
qed

lemma lower_csv: "map lower ''.csv'' = ''.csv''" "map lower ''.CSV'' = ''.csv''"
  by (simp_all add: lower_def)

lemma not_csv_any_case:
  assumes "\<not> endsWith (map lower n) ''.csv''"
  shows "\<not> endsWith n ''.csv'' \<and> \<not> endsWith n ''.CSV''"
  using assms lower_suffix [of n "''.csv''"] lower_suffix [of n "''.CSV''"]
  by (auto simp only: lower_csv)

lemma run_encode:
  "list_all scalar cps \<Longrightarrow>
   utf8_run utf8_start (utf8_encode cps @ rest) = cps @ utf8_run utf8_start rest"
  by (induction cps) (simp_all add: utf8_encode_def run_encode_cp)

lemma encode_bytes: "list_all scalar cps \<Longrightarrow> list_all (\<lambda>b. b < 256) (utf8_encode cps)"
  by (induction cps) (simp_all add: utf8_encode_def encode_cp_bytes)

lemma encode_cp_no_bom:
  assumes "scalar cp" "cp \<noteq> 0xFEFF"
  shows "take 3 (utf8_encode_cp cp @ rest) \<noteq> [0xEF, 0xBB, 0xBF]"
proof -
  define x where "x = cp div 64"
  define y where "y = x div 64"
  have cx: "cp = x * 64 + cp mod 64" and xy: "x = y * 64 + x mod 64"
    by (simp_all add: x_def y_def)
  have d12: "cp div 4096 = y" using div_mult2_eq [of cp 64 64] by (simp add: x_def y_def)
  consider "cp \<le> 0x7F" | "0x7F < cp" "cp \<le> 0x7FF" | "0x7FF < cp" "cp \<le> 0xFFFF"
    | "0xFFFF < cp" by linarith
  then show ?thesis
  proof cases
    case 1
    then show ?thesis by (simp add: utf8_encode_cp_def)
  next
    case 2
    then have "x < 32" using cx by linarith
    then show ?thesis using 2 by (simp add: utf8_encode_cp_def x_def)
  next
    case 3
    have "\<not> (y = 15 \<and> x mod 64 = 59 \<and> cp mod 64 = 63)"
      using assms(2) cx xy by linarith
    then show ?thesis using 3 d12 by (auto simp: utf8_encode_cp_def x_def)
  next
    case 4
    then show ?thesis by (simp add: utf8_encode_cp_def)
  qed
qed

lemma encode_no_bom:
  assumes "list_all scalar cps" "take 1 cps \<noteq> [0xFEFF]"
  shows "take 3 (utf8_encode cps) \<noteq> [0xEF, 0xBB, 0xBF]"
proof (cases cps)
  case Nil
  then show ?thesis by (simp add: utf8_encode_def)
next
  case (Cons c cs)
  with assms have "scalar c" "c \<noteq> 0xFEFF" by simp_all
  from encode_cp_no_bom [OF this, of "utf8_encode cs"] Cons
  show ?thesis by (simp add: utf8_encode_def)
qed

lemma decode_encode:
  assumes "list_all scalar cps" "take 1 cps \<noteq> [0xFEFF]"
  shows "utf8_decode (utf8_encode cps) = cps"
  using run_encode [OF assms(1), of "[]"] encode_no_bom [OF assms]
  by (simp add: utf8_decode_def utf8_start_def)

lemma reencode_bytes:
  assumes "list_all scalar cps" "take 1 cps \<noteq> [0xFEFF]"
  shows "map of_nat (utf8_encode (utf8_decode (map unat (map of_nat (utf8_encode cps) :: byte list))))
           = (map of_nat (utf8_encode cps) :: byte list)"
  by (simp only: bytes_of_nat_unat [OF encode_bytes [OF assms(1)]] decode_encode [OF assms])

section \<open>Progress and completion events\<close>

text \<open>
  C5: after a Complete event has been processed the stored percentage is exactly 100,
  whatever state the preceding messages left behind and whatever fields the Complete
  event carries.
\<close>

theorem complete_percentage_100:
  assumes "get_prop c ''type'' = Some (JStr ''complete'')"
  shows "percentage (onmessage (Some c) (foldl (\<lambda>st p. onmessage (Some p) st) s ps)) = JNum 100"
  using assms
  by (simp add: onmessage_def close_current_def ws_close_def split: option.splits)

theorem complete_percentage_100_witness:
  "get_prop (JObj [(''type'', JStr ''complete''), (''processed'', JNum 10), (''total'', JNum 10),
                   (''percentage'', JNum 42)]) ''type'' = Some (JStr ''complete'')
   \<and> percentage (onmessage (Some (JObj [(''type'', JStr ''complete''), (''processed'', JNum 10),
                   (''total'', JNum 10), (''percentage'', JNum 42)]))
        (foldl (\<lambda>st p. onmessage (Some p) st) initial
           [JObj [(''type'', JStr ''progress''), (''processed'', JNum 5), (''total'', JNum 10),
                  (''percentage'', JNum 50)]])) = JNum 100"
  using complete_percentage_100
    [of "JObj [(''type'', JStr ''complete''), (''processed'', JNum 10), (''total'', JNum 10),
               (''percentage'', JNum 42)]"
        initial
        "[JObj [(''type'', JStr ''progress''), (''processed'', JNum 5), (''total'', JNum 10),
                (''percentage'', JNum 50)]]"]
  by simp

text \<open>
  C2 as stated fails: a Progress event carrying 150 leaves the stored percentage at 150.
\<close>

theorem progress_percentage_not_clamped:
  "\<not> in_0_100 (percentage (onmessage
       (Some (JObj [(''type'', JStr ''progress''), (''processed'', JNum 3), (''total'', JNum 2),
                    (''percentage'', JNum 150)])) initial))"
  by (simp add: onmessage_def read_prop_def js_or_def initial_def)

text \<open>
  C2, amended: a Progress event stores the percentage it carries unchanged when that value
  is truthy and 0 otherwise, without clamping; so the stored percentage is a number in
  [0,100] whenever the carried value is one.
\<close>

theorem progress_percentage_stored:
  assumes "get_prop d ''type'' = Some (JStr ''progress'')"
  shows "percentage (onmessage (Some d) s) = js_or (read_prop d ''percentage'') (JNum 0)
         \<and> (in_0_100 (read_prop d ''percentage'') \<longrightarrow> in_0_100 (percentage (onmessage (Some d) s)))"
  using assms by (simp add: onmessage_def js_or_def)

theorem progress_percentage_stored_witness:
  "get_prop (JObj [(''type'', JStr ''progress''), (''percentage'', JNum 50)]) ''type''
     = Some (JStr ''progress'')
   \<and> in_0_100 (read_prop (JObj [(''type'', JStr ''progress''), (''percentage'', JNum 50)]) ''percentage'')
   \<and> percentage (onmessage (Some (JObj [(''type'', JStr ''progress''), (''percentage'', JNum 50)])) initial)
       = JNum 50"
  using progress_percentage_stored
    [of "JObj [(''type'', JStr ''progress''), (''percentage'', JNum 50)]" initial]
  by (simp add: read_prop_def js_or_def)

text \<open>
  C10 as stated fails: for a Complete event with neither \<^verbatim>\<open>total\<close> nor \<^verbatim>\<open>processed\<close> the
  stored total is 0 but the log entry's total is \<^verbatim>\<open>undefined\<close>.
\<close>

theorem complete_entry_total_differs:
  "total_st (onmessage (Some (JObj [(''type'', JStr ''complete'')])) initial) = JNum 0
   \<and> entry_total (last (logs (onmessage (Some (JObj [(''type'', JStr ''complete'')])) initial)))
       = Some JUndefined"
  by (simp add: onmessage_def read_prop_def js_or_def initial_def close_current_def)

text \<open>
  C10, amended: for a Complete event whose \<^verbatim>\<open>total\<close> is falsy, the stored total is the
  event's \<^verbatim>\<open>processed\<close> value, or 0 if that is falsy too; the appended entry records the
  \<^verbatim>\<open>processed\<close> value itself as its total, which is the stored total whenever
  \<^verbatim>\<open>processed\<close> is truthy.
\<close>

theorem complete_total_fallback:
  assumes "get_prop d ''type'' = Some (JStr ''complete'')"
      and "\<not> truthy (read_prop d ''total'')"
  shows "total_st (onmessage (Some d) s) = js_or (read_prop d ''processed'') (JNum 0)
         \<and> last (logs (onmessage (Some d) s))
             = CompleteLog (read_prop d ''message'') (read_prop d ''processed'')
                 (read_prop d ''processed'') (clock s)
         \<and> (truthy (read_prop d ''processed'') \<longrightarrow>
              entry_total (last (logs (onmessage (Some d) s))) = Some (total_st (onmessage (Some d) s)))"
  using assms
  by (simp add: onmessage_def js_or_def close_current_def ws_close_def split: option.splits)

theorem complete_total_fallback_witness:
  "get_prop (JObj [(''type'', JStr ''complete''), (''processed'', JNum 7), (''total'', JNum 0)]) ''type''
     = Some (JStr ''complete'')
   \<and> \<not> truthy (read_prop (JObj [(''type'', JStr ''complete''), (''processed'', JNum 7), (''total'', JNum 0)]) ''total'')
   \<and> truthy (read_prop (JObj [(''type'', JStr ''complete''), (''processed'', JNum 7), (''total'', JNum 0)]) ''processed'')
   \<and> total_st (onmessage (Some (JObj [(''type'', JStr ''complete''), (''processed'', JNum 7), (''total'', JNum 0)])) initial)
       = JNum 7
   \<and> entry_total (last (logs (onmessage (Some (JObj [(''type'', JStr ''complete''), (''processed'', JNum 7), (''total'', JNum 0)])) initial)))
       = Some (JNum 7)"
  using complete_total_fallback
    [of "JObj [(''type'', JStr ''complete''), (''processed'', JNum 7), (''total'', JNum 0)]" initial]
  by (simp add: read_prop_def js_or_def)

section \<open>Reconnection\<close>

text \<open>
  C7: take a stream started for a job and any events after that which neither stop it nor
  end it. If the stream is then connected and its socket closes, the status becomes
  disconnected and exactly one timer is added, due 3000 ms later; that timer cannot run
  earlier, can run once the delay has passed, and when it runs it is used up, the status
  becomes connecting and one new socket is created. Nothing bounds the retries: a stream
  whose connection is dropped \<open>n\<close> times in a row reconnects each time, for every \<open>n\<close>.
\<close>

theorem reconnect_after_drop:
  assumes "timers_fresh s0" and "statusRef s0 \<noteq> Complete" and "statusRef s0 \<noteq> Error"
      and "j \<noteq> []" and "list_all benign es"
      and "run (Effect (Some j) None # es) s0 = Some s"
      and "status s = Connected" and "enabled (Close i) s"
  shows "(let s1 = step (Close i) s; t = next_timer s;
              s2 = step (Timeout t None) (step (Tick 3000) s1) in
            status s1 = Disconnected
          \<and> timers s1 = timers s @ [\<lparr>timer_id = t, due = clock s + 3000,
                                      timer_job = sock_job (sockets s ! i)\<rparr>]
          \<and> (\<forall>d thrown. d < 3000 \<longrightarrow> \<not> enabled (Timeout t thrown) (step (Tick d) s1))
          \<and> enabled (Timeout t None) (step (Tick 3000) s1)
          \<and> status s2 = Connecting
          \<and> timers s2 = timers s
          \<and> length (sockets s2) = Suc (length (sockets s)))
       \<and> (\<forall>n. \<exists>s'. run ([Effect (Some j) None, Render, Open (length (sockets s0)), Render]
                           @ drops n (length (sockets s0)) (next_timer s0)) s0 = Some s'
                     \<and> status s' = Connected
                     \<and> length (sockets s') = Suc (length (sockets s0)) + n)"
proof -
  from assms(6) have en0: "enabled (Effect (Some j) None) s0"
    and r: "run es (step (Effect (Some j) None) s0) = Some s"
    by (auto split: if_splits)
  have fresh: "timers_fresh s"
    using run_timers_fresh [OF r step_timers_fresh [OF assms(1)]] .
  have "going s"
    using run_going [OF r assms(5) effect_going [OF assms(4) assms(2) assms(3)]] .
  then have g: "shouldReconnectRef s" "statusRef s \<noteq> Complete" "statusRef s \<noteq> Error"
    by (simp_all add: going_def)
  note cs = close_schedules [OF fresh g, where i = i]
  have first: "let s1 = step (Close i) s; t = next_timer s;
              s2 = step (Timeout t None) (step (Tick 3000) s1) in
            status s1 = Disconnected
          \<and> timers s1 = timers s @ [\<lparr>timer_id = t, due = clock s + 3000,
                                      timer_job = sock_job (sockets s ! i)\<rparr>]
          \<and> (\<forall>d thrown. d < 3000 \<longrightarrow> \<not> enabled (Timeout t thrown) (step (Tick d) s1))
          \<and> enabled (Timeout t None) (step (Tick 3000) s1)
          \<and> status s2 = Connecting
          \<and> timers s2 = timers s
          \<and> length (sockets s2) = Suc (length (sockets s))"
    unfolding Let_def using cs by blast
  have second: "\<exists>s'. run ([Effect (Some j) None, Render, Open (length (sockets s0)), Render]
                           @ drops n (length (sockets s0)) (next_timer s0)) s0 = Some s'
                     \<and> status s' = Connected
                     \<and> length (sockets s') = Suc (length (sockets s0)) + n" for n
  proof -
    from en0 have nm: "\<not> mounted s0" by simp
    from start_live [OF assms(4) nm assms(1)] obtain s1 where
      r1: "run [Effect (Some j) None, Render, Open (length (sockets s0)), Render] s0 = Some s1"
      and l1: "live (length (sockets s0)) (next_timer s0) s1" by blast
    from drops_live [OF l1, of n] obtain s2 where
      r2: "run (drops n (length (sockets s0)) (next_timer s0)) s1 = Some s2"
      and l2: "live (length (sockets s0) + n) (next_timer s0 + n) s2" by blast
    have "run ([Effect (Some j) None, Render, Open (length (sockets s0)), Render]
               @ drops n (length (sockets s0)) (next_timer s0)) s0 = Some s2"
      using r1 r2 by (simp only: run_append) simp
    then show ?thesis using l2 by (auto simp: live_def)
  qed
  from first second show ?thesis by blast
qed

theorem reconnect_after_drop_witness:
  "timers_fresh initial \<and> statusRef initial \<noteq> Complete \<and> statusRef initial \<noteq> Error
   \<and> ''job1'' \<noteq> [] \<and> list_all benign [Render, Open 0, Render]
   \<and> (\<exists>s. run (Effect (Some ''job1'') None # [Render, Open 0, Render]) initial = Some s
          \<and> status s = Connected \<and> enabled (Close 0) s
          \<and> status (step (Close 0) s) = Disconnected
          \<and> timers (step (Close 0) s) = [\<lparr>timer_id = 1, due = 3000, timer_job = ''job1''\<rparr>]
          \<and> status (step (Timeout 1 None) (step (Tick 3000) (step (Close 0) s))) = Connecting)"
proof -
  have h: "timers_fresh initial" "statusRef initial \<noteq> Complete" "statusRef initial \<noteq> Error"
    "''job1'' \<noteq> []" "list_all benign [Render, Open 0, Render]"
    by (simp_all add: timers_fresh_def initial_def)
  obtain s where r: "run (Effect (Some ''job1'') None # [Render, Open 0, Render]) initial = Some s"
    and st: "status s = Connected" and en: "enabled (Close 0) s"
    and vals: "next_timer s = 1" "clock s = 0" "timers s = []" "sock_job (sockets s ! 0) = ''job1''"
    by (simp add: handler_defs initial_def)
  from reconnect_after_drop [OF h r st en]
  have c: "status (step (Close 0) s) = Disconnected"
    "timers (step (Close 0) s)
       = timers s @ [\<lparr>timer_id = next_timer s, due = clock s + 3000,
                       timer_job = sock_job (sockets s ! 0)\<rparr>]"
    "status (step (Timeout (next_timer s) None) (step (Tick 3000) (step (Close 0) s))) = Connecting"
    unfolding Let_def by blast+
  from c vals
  have "status (step (Close 0) s) = Disconnected
          \<and> timers (step (Close 0) s) = [\<lparr>timer_id = 1, due = 3000, timer_job = ''job1''\<rparr>]
          \<and> status (step (Timeout 1 None) (step (Tick 3000) (step (Close 0) s))) = Connecting"
    by (simp del: step.simps)
  with h r st en show ?thesis by blast
qed

section \<open>Terminal states and cleanup\<close>

text \<open>
  C1: the status reached by a Complete event does not stay. The handler closes the socket,
  and the close event that follows sets the status to disconnected.
\<close>

theorem complete_then_close_disconnected:
  "map_option status
     (run [Effect (Some ''job1'') None, Render, Open 0, Render,
           Message 0 (Some (JObj [(''type'', JStr ''complete''), (''processed'', JNum 10),
                                  (''total'', JNum 10)])),
           Render] initial) = Some Complete
   \<and> map_option status
     (run [Effect (Some ''job1'') None, Render, Open 0, Render,
           Message 0 (Some (JObj [(''type'', JStr ''complete''), (''processed'', JNum 10),
                                  (''total'', JNum 10)])),
           Render, Close 0] initial) = Some Disconnected"
  by (simp add: handler_defs initial_def read_prop_def js_or_def)

text \<open>
  C6: a socket error while connecting, followed by the socket's close event before the
  next render, schedules a reconnection: after the delay the timer runs and a second
  socket is connecting. The error status is replaced by disconnected and then connecting.
  When a render does come between the two events no timer is scheduled, and the status
  still ends as disconnected.
\<close>

theorem socket_error_reconnects:
  "map_option (\<lambda>s. (status s, map timer_id (timers s)))
     (run [Effect (Some ''job1'') None, Render, SocketError 0] initial) = Some (Error, [])
   \<and> map_option (\<lambda>s. (status s, map timer_id (timers s)))
     (run [Effect (Some ''job1'') None, Render, SocketError 0, Close 0] initial)
       = Some (Disconnected, [1])
   \<and> map_option (\<lambda>s. (status s, wsRef s, map readyState (sockets s)))
     (run [Effect (Some ''job1'') None, Render, SocketError 0, Close 0, Render, Tick 3000,
           Timeout 1 None] initial)
       = Some (Connecting, Some 1, [CLOSED, CONNECTING])
   \<and> map_option (\<lambda>s. (status s, map timer_id (timers s)))
     (run [Effect (Some ''job1'') None, Render, SocketError 0, Render, Close 0] initial)
       = Some (Disconnected, [])"
  by (simp add: handler_defs initial_def)

text \<open>
  C8: the cleanup leaves the stored error as it is. After an Error event with message
  \<^verbatim>\<open>boom\<close>, the cleanup resets logs, progress and status, and the error is still \<^verbatim>\<open>boom\<close>.
\<close>

theorem cleanup_keeps_error:
  "map_option (\<lambda>s. (logs s, progress s, total_st s, percentage s, status s, error s))
     (run [Effect (Some ''job1'') None, Render, Open 0, Render,
           Message 0 (Some (JObj [(''type'', JStr ''error''), (''message'', JStr ''boom'')])),
           Render, Cleanup] initial)
     = Some ([], JNum 0, JNum 0, JNum 0, Disconnected, JStr ''boom'')"
  by (simp add: handler_defs initial_def read_prop_def js_or_def)

section \<open>Upload validation and submission\<close>

text \<open>
  C4 as stated fails: \<^verbatim>\<open>report.Csv\<close> ends in the extension when case is ignored, and the
  upload is rejected all the same, with no I/O.
\<close>

theorem mixed_case_extension_rejected:
  "endsWith (map lower ''report.Csv'') ''.csv''
   \<and> uploadFile (test_env (JObj [(''job_id'', JStr ''job1'')]))
       (Some \<lparr>file_name = ''report.Csv'', file_bytes = [0x61]\<rparr>) idle
     = (JNull,
        \<lparr>uploading = False, jobId = JNull, upload_error = JStr ''File must be a CSV file''\<rparr>,
        [])"
  by (simp add: uploadFile_def idle_def endsWith_def lower_def)

text \<open>
  C4, amended: a file whose name ends in neither \<^verbatim>\<open>.csv\<close> nor \<^verbatim>\<open>.CSV\<close>, spelled exactly
  so, is rejected with the validation message before any file read or network call; this
  covers every name that lacks the extension whatever the case, and mixed-case spellings
  as well.
\<close>

theorem wrong_extension_rejected:
  "(\<not> endsWith (file_name f) ''.csv'' \<and> \<not> endsWith (file_name f) ''.CSV'' \<longrightarrow>
      uploadFile env (Some f) s = (JNull, s\<lparr>upload_error := JStr ''File must be a CSV file''\<rparr>, []))
   \<and> (\<not> endsWith (map lower (file_name f)) ''.csv'' \<longrightarrow>
      uploadFile env (Some f) s = (JNull, s\<lparr>upload_error := JStr ''File must be a CSV file''\<rparr>, []))"
proof -
  have first: "uploadFile env (Some f) s
                 = (JNull, s\<lparr>upload_error := JStr ''File must be a CSV file''\<rparr>, [])"
    if "\<not> endsWith (file_name f) ''.csv'' \<and> \<not> endsWith (file_name f) ''.CSV''"
    using that by (simp add: uploadFile_def)
  with not_csv_any_case [of "file_name f"] show ?thesis by blast
qed

theorem wrong_extension_rejected_witness:
  "\<not> endsWith (map lower ''report.txt'') ''.csv''
   \<and> \<not> endsWith ''report.txt'' ''.csv'' \<and> \<not> endsWith ''report.txt'' ''.CSV''
   \<and> uploadFile (test_env (JObj [(''job_id'', JStr ''job1'')]))
       (Some \<lparr>file_name = ''report.txt'', file_bytes = [0x61]\<rparr>) idle
     = (JNull,
        \<lparr>uploading = False, jobId = JNull, upload_error = JStr ''File must be a CSV file''\<rparr>,
        [])"
proof -
  have h: "\<not> endsWith (map lower ''report.txt'') ''.csv''"
    "\<not> endsWith ''report.txt'' ''.csv''" "\<not> endsWith ''report.txt'' ''.CSV''"
    by (simp_all add: endsWith_def lower_def)
  from wrong_extension_rejected
    [of "\<lparr>file_name = ''report.txt'', file_bytes = [0x61]\<rparr>"
        "test_env (JObj [(''job_id'', JStr ''job1'')])" idle] h(2,3)
  have "uploadFile (test_env (JObj [(''job_id'', JStr ''job1'')]))
       (Some \<lparr>file_name = ''report.txt'', file_bytes = [0x61]\<rparr>) idle
     = (JNull, idle\<lparr>upload_error := JStr ''File must be a CSV file''\<rparr>, [])"
    by simp
  with h show ?thesis by (simp add: idle_def)
qed

text \<open>
  C3 as stated fails: a 2xx response whose body has no \<^verbatim>\<open>job_id\<close> makes the upload
  succeed with the job id \<^verbatim>\<open>undefined\<close> and no error recorded.
\<close>

theorem missing_job_id_succeeds:
  "uploadFile (test_env (JObj [(''status'', JStr ''queued'')]))
     (Some \<lparr>file_name = ''data.csv'', file_bytes = [0x61]\<rparr>) idle
   = (JUndefined,
      \<lparr>uploading = False, jobId = JUndefined, upload_error = JNull\<rparr>,
      [ReadFile ''data.csv'', Post ''/api/upload'' ''data.csv.gz'' [0x1F, 0x8B, 0x61]])"
  by (simp add: uploadFile_def test_env_def idle_def endsWith_def compress_file_def store_def
        utf8_decode_def utf8_encode_def utf8_encode_cp_def utf8_defs)

text \<open>
  C3, amended: for an accepted file whose upload gets a 2xx response with an object as
  body, the job id returned and stored is the body's \<^verbatim>\<open>job_id\<close> property, \<^verbatim>\<open>undefined\<close>
  when the body has none; no error is recorded and \<open>uploading\<close> is false again.
\<close>

theorem upload_returns_job_id_field:
  assumes "endsWith (file_name f) ''.csv'' \<or> endsWith (file_name f) ''.CSV''"
      and "compress_file env f = Inr c"
      and "post env (file_name f @ ''.gz'') c = Inr (JObj kv)"
  shows "uploadFile env (Some f) s =
           ((case map_of kv ''job_id'' of Some v \<Rightarrow> v | None \<Rightarrow> JUndefined),
            s\<lparr>uploading := False, upload_error := JNull,
              jobId := (case map_of kv ''job_id'' of Some v \<Rightarrow> v | None \<Rightarrow> JUndefined)\<rparr>,
            [ReadFile (file_name f), Post ''/api/upload'' (file_name f @ ''.gz'') c])"
  using assms by (auto simp: uploadFile_def)

theorem upload_returns_job_id_field_witness:
  "(endsWith ''data.CSV'' ''.csv'' \<or> endsWith ''data.CSV'' ''.CSV'')
   \<and> compress_file (test_env (JObj [(''job_id'', JStr ''job1'')]))
        \<lparr>file_name = ''data.CSV'', file_bytes = [0x61]\<rparr> = Inr [0x1F, 0x8B, 0x61]
   \<and> post (test_env (JObj [(''job_id'', JStr ''job1'')])) (''data.CSV'' @ ''.gz'') [0x1F, 0x8B, 0x61]
        = Inr (JObj [(''job_id'', JStr ''job1'')])
   \<and> uploadFile (test_env (JObj [(''job_id'', JStr ''job1'')]))
        (Some \<lparr>file_name = ''data.CSV'', file_bytes = [0x61]\<rparr>) idle
      = (JStr ''job1'',
         \<lparr>uploading = False, jobId = JStr ''job1'', upload_error = JNull\<rparr>,
         [ReadFile ''data.CSV'', Post ''/api/upload'' ''data.CSV.gz'' [0x1F, 0x8B, 0x61]])"
proof -
  have h1: "endsWith (file_name \<lparr>file_name = ''data.CSV'', file_bytes = [0x61]\<rparr>) ''.csv''
            \<or> endsWith (file_name \<lparr>file_name = ''data.CSV'', file_bytes = [0x61]\<rparr>) ''.CSV''"
    by (simp add: endsWith_def)
  have h2: "compress_file (test_env (JObj [(''job_id'', JStr ''job1'')]))
        \<lparr>file_name = ''data.CSV'', file_bytes = [0x61]\<rparr> = Inr [0x1F, 0x8B, 0x61]"
    by (simp add: test_env_def compress_file_def store_def
          utf8_decode_def utf8_encode_def utf8_encode_cp_def utf8_defs)
  have h3: "post (test_env (JObj [(''job_id'', JStr ''job1'')]))
              (file_name \<lparr>file_name = ''data.CSV'', file_bytes = [0x61]\<rparr> @ ''.gz'')
              [0x1F, 0x8B, 0x61]
            = Inr (JObj [(''job_id'', JStr ''job1'')])"
    by (simp add: test_env_def)
  from upload_returns_job_id_field [OF h1 h2 h3, of idle] h1 h2 h3
  show ?thesis by (simp add: idle_def)
qed

section \<open>Compression round trip\<close>

text \<open>
  C9 as stated fails: a file holding the single byte FF, which is not UTF-8, is read as the
  text U+FFFD and compressed as the three bytes EF BF BD; decompressing gives those three
  bytes, not the file's. A file that begins with a byte order mark loses it: EF BB BF 61
  comes back as 61.
\<close>

theorem compress_not_byte_identical:
  "endsWith ''data.csv'' ''.csv''
   \<and> decompressed unstore
       (compress_file (test_env JNull) \<lparr>file_name = ''data.csv'', file_bytes = [0xFF]\<rparr>)
     = Some [0xEF, 0xBF, 0xBD]
   \<and> decompressed unstore
       (compress_file (test_env JNull) \<lparr>file_name = ''data.csv'', file_bytes = [0xFF]\<rparr>)
     \<noteq> Some (file_bytes \<lparr>file_name = ''data.csv'', file_bytes = [0xFF]\<rparr>)
   \<and> decompressed unstore
       (compress_file (test_env JNull)
          \<lparr>file_name = ''data.csv'', file_bytes = [0xEF, 0xBB, 0xBF, 0x61]\<rparr>)
     = Some [0x61]"
  by (simp add: endsWith_def decompressed_def unstore_def test_env_def compress_file_def store_def
        utf8_decode_def utf8_encode_def utf8_encode_cp_def utf8_defs)

text \<open>
  C9, amended: for every readable file whose content is the UTF-8 encoding of a text that
  does not begin with a byte order mark, the bytes handed to the compressor are the file's
  bytes, so with any codec whose decompression inverts its compression, decompressing the
  compressed output gives back exactly the file's bytes.
\<close>

theorem compress_roundtrip_utf8:
  assumes "list_all scalar cps" and "take 1 cps \<noteq> [0xFEFF]"
      and "file_bytes f = map of_nat (utf8_encode cps)"
      and "text_rejects env = None"
      and "\<forall>b c. gzip env b = Inr c \<longrightarrow> gunzip c = Some b"
  shows "compress_file env f = gzip env (file_bytes f)
         \<and> (\<forall>c. compress_file env f = Inr c \<longrightarrow> gunzip c = Some (file_bytes f))"
proof -
  have "compress_file env f = gzip env (file_bytes f)"
    using reencode_bytes [OF assms(1,2)] assms(3,4) by (simp add: compress_file_def)
  with assms(5) show ?thesis by simp
qed

theorem compress_roundtrip_utf8_witness:
  "list_all scalar [0x61, 0xE9] \<and> take 1 [0x61, 0xE9 :: nat] \<noteq> [0xFEFF]
   \<and> file_bytes \<lparr>file_name = ''data.csv'', file_bytes = [0x61, 0xC3, 0xA9]\<rparr>
       = map of_nat (utf8_encode [0x61, 0xE9])
   \<and> text_rejects (test_env JNull) = None
   \<and> compress_file (test_env JNull) \<lparr>file_name = ''data.csv'', file_bytes = [0x61, 0xC3, 0xA9]\<rparr>
       = Inr [0x1F, 0x8B, 0x61, 0xC3, 0xA9]
   \<and> unstore [0x1F, 0x8B, 0x61, 0xC3, 0xA9] = Some [0x61, 0xC3, 0xA9]"
proof -
  have h: "list_all scalar [0x61, 0xE9]" "take 1 [0x61, 0xE9 :: nat] \<noteq> [0xFEFF]"
    "file_bytes \<lparr>file_name = ''data.csv'', file_bytes = [0x61, 0xC3, 0xA9]\<rparr>
       = map of_nat (utf8_encode [0x61, 0xE9])"
    "text_rejects (test_env JNull) = None"
    "\<forall>b c. gzip (test_env JNull) b = Inr c \<longrightarrow> unstore c = Some b"
    by (auto simp: scalar_def utf8_encode_def utf8_encode_cp_def test_env_def store_def
          unstore_def)
  have g: "gzip (test_env JNull) [0x61, 0xC3, 0xA9] = Inr [0x1F, 0x8B, 0x61, 0xC3, 0xA9]"
    by (simp add: test_env_def store_def)
  from compress_roundtrip_utf8 [OF h] g
  have "compress_file (test_env JNull) \<lparr>file_name = ''data.csv'', file_bytes = [0x61, 0xC3, 0xA9]\<rparr>
          = Inr [0x1F, 0x8B, 0x61, 0xC3, 0xA9]
        \<and> unstore [0x1F, 0x8B, 0x61, 0xC3, 0xA9] = Some [0x61, 0xC3, 0xA9]"
    by simp
  with h(1-4) show ?thesis by blast
qed

end
